theory Spec2Isabelle
  imports Complex_Main "HOL-Library.Multiset" "HOL-Library.Sublist" "HOL-Library.AList"
begin

section \<open>The typed data model (types file)\<close>

text \<open>
  The interface \<^verbatim>\<open>CoinData\<close> as the types file declares it. A field of type
  \<^verbatim>\<open>number\<close> is modelled by the finite number it holds (a real); \<^verbatim>\<open>number | null\<close>
  is an option, an optional field (\<^verbatim>\<open>sources?\<close>) too. The fields \<^verbatim>\<open>id\<close> and
  \<^verbatim>\<open>value\<close> carry a prime, because both words are taken in Isabelle.
\<close>

record CoinData =
  id' :: string
  name :: string
  year :: "real option"
  country :: string
  denomination :: string
  value' :: real
  currency :: string
  composition :: string
  description :: string
  condition :: string
  dateAdded :: string
  frontImageUrl :: string
  backImageUrl :: string
  isRare :: bool
  rarityDetails :: string
  sources :: "string list option"

datatype ViewState = Dashboard | Collection | Add | Details

datatype SortBy = ByDate | ByValue | ByName | ByYear

datatype SortOrder = Asc | Desc

section \<open>View derivation: dashboard aggregate, filter, sort\<close>

text \<open>
  \<^verbatim>\<open>mostValuableCoin\<close> of the dashboard: \<^verbatim>\<open>null\<close> on the empty array, otherwise
  \<^verbatim>\<open>coins.reduce((prev, current) => (prev.value > current.value) ? prev : current)\<close>.
  A reduce without initial value starts from the first element and folds the rest
  from left to right.
\<close>

definition mostValuableCoin :: "CoinData list \<Rightarrow> CoinData option" where
  "mostValuableCoin coins =
     (case coins of
        [] \<Rightarrow> None
      | c # cs \<Rightarrow>
          Some (foldl (\<lambda>prev current. if value' prev > value' current then prev else current) c cs))"

text \<open>
  The aggregate as the specification words it: the first coin, in iteration order,
  whose value no other coin exceeds.
\<close>

definition spec_first_highest :: "CoinData list \<Rightarrow> CoinData option" where
  "spec_first_highest coins = find (\<lambda>c. \<forall>d \<in> set coins. value' d \<le> value' c) coins"

text \<open>
  \<^verbatim>\<open>String.prototype.toLowerCase\<close> is the library's case mapping over all of Unicode;
  the filter takes it as a parameter. A string is the list of its characters; text
  outside ASCII is carried in its UTF-8 encoding, in which one well-formed string
  occurs in another exactly where it does character by character.
\<close>

text \<open>\<^verbatim>\<open>s.includes(t)\<close>: \<open>t\<close> occurs in \<open>s\<close> as a contiguous run of characters.\<close>

fun string_includes :: "string \<Rightarrow> string \<Rightarrow> bool" where
  "string_includes [] t = (t = [])"
| "string_includes (c # s) t = (prefix t (c # s) \<or> string_includes s t)"

definition filteredCoins :: "(string \<Rightarrow> string) \<Rightarrow> CoinData list \<Rightarrow> string \<Rightarrow> CoinData list" where
  "filteredCoins toLowerCase coins searchTerm =
     filter (\<lambda>coin.
        string_includes (toLowerCase (name coin)) (toLowerCase searchTerm) \<or>
        string_includes (toLowerCase (country coin)) (toLowerCase searchTerm)) coins"

text \<open>
  \<^verbatim>\<open>Array.prototype.sort(compareFn)\<close> is stable: for a comparator that orders its
  arguments consistently the result is the one stable arrangement, which insertion
  from the right computes. An element goes in front of the first element it is not
  greater than (\<open>compareFn x y \<le> 0\<close>).
\<close>

fun array_insert :: "('a \<Rightarrow> 'a \<Rightarrow> real) \<Rightarrow> 'a \<Rightarrow> 'a list \<Rightarrow> 'a list" where
  "array_insert compareFn x [] = [x]"
| "array_insert compareFn x (y # ys) =
     (if compareFn x y \<le> 0 then x # y # ys else y # array_insert compareFn x ys)"

definition array_sort :: "('a \<Rightarrow> 'a \<Rightarrow> real) \<Rightarrow> 'a list \<Rightarrow> 'a list" where
  "array_sort compareFn xs = foldr (array_insert compareFn) xs []"

text \<open>\<^verbatim>\<open>x.year || 0\<close>: \<^verbatim>\<open>null\<close> and the falsy number 0 both give 0.\<close>

definition year_or_0 :: "real option \<Rightarrow> real" where
  "year_or_0 y = (case y of None \<Rightarrow> 0 | Some n \<Rightarrow> if n = 0 then 0 else n)"

text \<open>
  The comparator of \<^verbatim>\<open>sortedCoins\<close>. The two library calls it makes,
  \<^verbatim>\<open>localeCompare\<close> and \<^verbatim>\<open>new Date(_).getTime()\<close>, are parameters.
\<close>

definition compareCoins ::
  "(string \<Rightarrow> string \<Rightarrow> real) \<Rightarrow> (string \<Rightarrow> real) \<Rightarrow> SortBy \<Rightarrow> SortOrder \<Rightarrow>
   CoinData \<Rightarrow> CoinData \<Rightarrow> real" where
  "compareCoins localeCompare getTime sortBy sortOrder a b =
     (let diff =
        (case sortBy of
           ByValue \<Rightarrow> value' a - value' b
         | ByYear \<Rightarrow> year_or_0 (year a) - year_or_0 (year b)
         | ByName \<Rightarrow> localeCompare (name a) (name b)
         | ByDate \<Rightarrow> getTime (dateAdded a) - getTime (dateAdded b))
      in if sortOrder = Asc then diff else - diff)"

definition sortedCoins ::
  "(string \<Rightarrow> string \<Rightarrow> real) \<Rightarrow> (string \<Rightarrow> real) \<Rightarrow> SortBy \<Rightarrow> SortOrder \<Rightarrow>
   CoinData list \<Rightarrow> CoinData list" where
  "sortedCoins localeCompare getTime sortBy sortOrder filtered =
     array_sort (compareCoins localeCompare getTime sortBy sortOrder) filtered"

text \<open>Sample coins for the concrete evaluations below: an id, a value and a year.\<close>

definition sample_coin :: "string \<Rightarrow> real \<Rightarrow> real option \<Rightarrow> CoinData" where
  "sample_coin i v y =
     \<lparr> id' = i, name = ''Coin '' @ i, year = y, country = ''Portugal'',
       denomination = ''1 Escudo'', value' = v, currency = ''USD'',
       composition = ''Bronze'', description = '''', condition = ''Fine'',
       dateAdded = ''2024-01-01T00:00:00.000Z'', frontImageUrl = ''front'',
       backImageUrl = ''back'', isRare = False, rarityDetails = '''',
       sources = None \<rparr>"

text \<open>
  The scenario of the specification: A (value 5, year 1990), B (value 20, year
  unknown), C (value 20, year 2001).
\<close>

definition sample_collection :: "CoinData list" where
  "sample_collection =
     [sample_coin ''A'' 5 (Some 1990), sample_coin ''B'' 20 None, sample_coin ''C'' 20 (Some 2001)]"

text \<open>
  Stand-ins for the two library calls in the concrete evaluations; sorting by value or
  by year never calls them.
\<close>

definition no_localeCompare :: "string \<Rightarrow> string \<Rightarrow> real" where
  "no_localeCompare a b = 0"

definition no_getTime :: "string \<Rightarrow> real" where
  "no_getTime d = 0"

text \<open>
  A stand-in for \<^verbatim>\<open>toLowerCase\<close> in the concrete evaluations. It agrees with the
  library on strings of ASCII characters, the only ones the evaluations use: there
  the library moves the letters A to Z to a to z and leaves every other character.
\<close>

definition sample_toLowerCase :: "string \<Rightarrow> string" where
  "sample_toLowerCase s =
     map (\<lambda>c. let n = (of_char c :: nat) in if 65 \<le> n \<and> n \<le> 90 then char_of (n + 32) else c) s"

section \<open>Objects at run time\<close>

text \<open>
  Loading, identification and the pending entry handle coins that the compiler does not
  type: the parsed storage is \<^verbatim>\<open>any[]\<close>, the pending entry is
  \<^verbatim>\<open>Partial<CoinData>\<close> built by spreading the identification result, and
  \<^verbatim>\<open>pendingCoin as CoinData\<close> is erased at run time. These parts are modelled on
  the objects themselves: a value is a \<open>jsval\<close>, an object a list of properties in
  insertion order with distinct keys. A number is finite, an infinity or NaN.
\<close>

datatype jsnum = Fin real | PosInf | NegInf | NaN

datatype jsval =
    JUndefined
  | JNull
  | JBool bool
  | JNum jsnum
  | JStr string
  | JArr "jsval list"
  | JObj "(string \<times> jsval) list"

type_synonym jsobj = "(string \<times> jsval) list"

text \<open>\<^verbatim>\<open>obj.k\<close>: the value of the property, \<^verbatim>\<open>undefined\<close> when there is none.\<close>

definition get_prop :: "jsobj \<Rightarrow> string \<Rightarrow> jsval" where
  "get_prop obj k = (case map_of obj k of None \<Rightarrow> JUndefined | Some v \<Rightarrow> v)"

text \<open>
  \<^verbatim>\<open>{...obj, k: v}\<close> and \<^verbatim>\<open>obj.k = v\<close>: an existing property keeps its place and
  takes the new value, a new one goes to the end.
\<close>

definition set_prop :: "jsobj \<Rightarrow> string \<Rightarrow> jsval \<Rightarrow> jsobj" where
  "set_prop obj k v = AList.update k v obj"

text \<open>\<^verbatim>\<open>{...a, ...b}\<close>: the properties of \<open>b\<close> are written over \<open>a\<close> one by one.\<close>

definition spread :: "jsobj \<Rightarrow> jsobj \<Rightarrow> jsobj" where
  "spread a b = foldl (\<lambda>obj (k, v). set_prop obj k v) a b"

text \<open>
  Truthiness: \<^verbatim>\<open>undefined\<close>, \<^verbatim>\<open>null\<close>, \<^verbatim>\<open>false\<close>, 0, NaN and the empty
  string are falsy.
\<close>

fun truthy :: "jsval \<Rightarrow> bool" where
  "truthy JUndefined = False"
| "truthy JNull = False"
| "truthy (JBool b) = b"
| "truthy (JNum n) = (n \<noteq> NaN \<and> n \<noteq> Fin 0)"
| "truthy (JStr s) = (s \<noteq> [])"
| "truthy (JArr xs) = True"
| "truthy (JObj kvs) = True"

text \<open>\<^verbatim>\<open>a || b\<close>: the first operand when it is truthy, the second otherwise.\<close>

definition js_or :: "jsval \<Rightarrow> jsval \<Rightarrow> jsval" where
  "js_or a b = (if truthy a then a else b)"

section \<open>Load-time migration\<close>

text \<open>
  The callback of \<^verbatim>\<open>parsed.map\<close> in the loading effect, on a persisted record \<open>c\<close>:
  \<^verbatim>\<open>{...c, frontImageUrl: c.frontImageUrl || c.imageUrl,
     backImageUrl: c.backImageUrl || c.frontImageUrl || c.imageUrl,
     isRare: c.isRare || false, rarityDetails: c.rarityDetails || ''}\<close>.
  Every right-hand side reads the record as persisted.
\<close>

definition migrate_record :: "jsobj \<Rightarrow> jsobj" where
  "migrate_record c =
     set_prop (set_prop (set_prop (set_prop c
       ''frontImageUrl'' (js_or (get_prop c ''frontImageUrl'') (get_prop c ''imageUrl'')))
       ''backImageUrl''
          (js_or (js_or (get_prop c ''backImageUrl'') (get_prop c ''frontImageUrl''))
             (get_prop c ''imageUrl'')))
       ''isRare'' (js_or (get_prop c ''isRare'') (JBool False)))
       ''rarityDetails'' (js_or (get_prop c ''rarityDetails'') (JStr ''''))"

definition migrated :: "jsobj list \<Rightarrow> jsobj list" where
  "migrated parsed = map migrate_record parsed"

section \<open>Identification result and the value input\<close>








section \<open>Application state and handlers\<close>

record Images =
  front :: string
  back' :: string

datatype ImageSide = Front | Back

record AppState =
  view :: ViewState
  coins :: "jsobj list"
  selectedCoin :: "jsobj option"
  searchTerm :: string
  sortBy :: SortBy
  sortOrder :: SortOrder
  capturedImages :: "Images option"
  isAnalyzing :: bool
  analysisError :: "string option"
  pendingCoin :: "jsobj option"
  showImageSide :: ImageSide

definition initial_state :: AppState where
  "initial_state =
     \<lparr> view = Dashboard, coins = [], selectedCoin = None, searchTerm = '''',
       sortBy = ByDate, sortOrder = Desc, capturedImages = None, isAnalyzing = False,
       analysisError = None, pendingCoin = None, showImageSide = Front \<rparr>"

datatype error = ParseFailed | IdentificationFailed

text \<open>
  The loading effect. Nothing stored: no change. \<^verbatim>\<open>JSON.parse\<close> or the migration
  throws: the error is logged, no change. Otherwise the migrated records become the
  collection.
\<close>

definition loadCoins :: "(error + jsobj list) option \<Rightarrow> AppState \<Rightarrow> AppState" where
  "loadCoins savedCoins s =
     (case savedCoins of
        None \<Rightarrow> s
      | Some (Inl e) \<Rightarrow> s
      | Some (Inr parsed) \<Rightarrow> s\<lparr>coins := migrated parsed\<rparr>)"

definition handleStartAddCoin :: "AppState \<Rightarrow> AppState" where
  "handleStartAddCoin s =
     s\<lparr>capturedImages := None, pendingCoin := None, analysisError := None, view := Add\<rparr>"

text \<open>
  \<^verbatim>\<open>handleCapture\<close> is asynchronous. Up to the \<^verbatim>\<open>await\<close> it runs at once
  (\<open>handleCapture_called\<close>); the rest runs when the identification settles
  (\<open>handleCapture_settled\<close>), with the outcome: the result, or the error the call
  rejected with. The fresh id and the time stamp are inputs.
\<close>

definition handleCapture_called :: "Images \<Rightarrow> AppState \<Rightarrow> AppState" where
  "handleCapture_called images s =
     s\<lparr>capturedImages := Some images, isAnalyzing := True, analysisError := None\<rparr>"

definition handleCapture_settled ::
  "string \<Rightarrow> string \<Rightarrow> Images \<Rightarrow> error + jsobj \<Rightarrow> AppState \<Rightarrow> AppState" where
  "handleCapture_settled randomUUID now images outcome s =
     (case outcome of
        Inr result \<Rightarrow>
          s\<lparr>pendingCoin := Some (spread
               [(''id'', JStr randomUUID),
                (''frontImageUrl'', JStr (front images)),
                (''backImageUrl'', JStr (back' images)),
                (''dateAdded'', JStr now),
                (''currency'', JStr ''USD'')] result),
            isAnalyzing := False\<rparr>
      | Inl err \<Rightarrow>
          s\<lparr>analysisError :=
               Some ''Failed to identify coin. Please try again with a clearer photo.'',
            isAnalyzing := False\<rparr>)"

definition handleCapture ::
  "string \<Rightarrow> string \<Rightarrow> Images \<Rightarrow> error + jsobj \<Rightarrow> AppState \<Rightarrow> AppState" where
  "handleCapture randomUUID now images outcome s =
     handleCapture_settled randomUUID now images outcome (handleCapture_called images s)"

text \<open>
  \<^verbatim>\<open>handleSaveCoin\<close>: the pending entry goes to the head of the list when it exists
  and its name is truthy; nothing happens otherwise.
\<close>

definition handleSaveCoin :: "AppState \<Rightarrow> AppState" where
  "handleSaveCoin s =
     (case pendingCoin s of
        None \<Rightarrow> s
      | Some p \<Rightarrow>
          if truthy (get_prop p ''name'')
          then s\<lparr>coins := p # coins s, view := Collection, pendingCoin := None,
                 capturedImages := None\<rparr>
          else s)"


text \<open>
  \<^verbatim>\<open>handleDeleteCoin(id)\<close>; \<open>confirmed\<close> is the answer to the \<^verbatim>\<open>confirm\<close> dialog.
  The id is a string, so \<^verbatim>\<open>c.id !== id\<close> holds exactly when \<^verbatim>\<open>c.id\<close> is not that
  string.
\<close>

definition handleDeleteCoin :: "bool \<Rightarrow> string \<Rightarrow> AppState \<Rightarrow> AppState" where
  "handleDeleteCoin confirmed i s =
     (if confirmed
      then s\<lparr>coins := filter (\<lambda>c. get_prop c ''id'' \<noteq> JStr i) (coins s),
             selectedCoin :=
               (if (case selectedCoin s of None \<Rightarrow> False | Some c \<Rightarrow> get_prop c ''id'' = JStr i)
                then None else selectedCoin s),
             view := (if view s = Details then Collection else view s)\<rparr>
      else s)"

text \<open>Sample data for the concrete evaluations of the handlers.\<close>


definition sample_images :: Images where
  "sample_images = \<lparr> front = ''data:front'', back' = ''data:back'' \<rparr>"

definition sample_result :: jsobj where
  "sample_result =
     [(''name'', JStr ''Penny''), (''year'', JNum (Fin 1999)), (''country'', JStr ''Portugal''),
      (''estimatedValue'', JNum (Fin 5))]"

definition sample_pending :: jsobj where
  "sample_pending = [(''id'', JStr ''id-3''), (''name'', JStr ''Penny'')]"

definition sample_store :: AppState where
  "sample_store =
     initial_state\<lparr>coins := [[(''id'', JStr ''id-1''), (''name'', JStr ''Escudo'')],
                              [(''id'', JStr ''id-2''), (''name'', JStr ''Centavo'')]],
                    selectedCoin := Some [(''id'', JStr ''id-1''), (''name'', JStr ''Escudo'')],
                    view := Details\<rparr>"

text \<open>
  A state the handlers reach from the initial one: the add flow is started, two images
  are captured and the identification is called; while it is in flight the user
  retakes (the button is on the screen during the analysis); then the first
  identification resolves. The capture screen is shown again, and the pending entry
  holds the result of the abandoned identification.
\<close>

definition stale_pending_state :: AppState where
  "stale_pending_state =
     handleCapture_settled ''id-1'' ''2024-01-01T00:00:00.000Z'' sample_images (Inr sample_result)
       (handleStartAddCoin (handleCapture_called sample_images (handleStartAddCoin initial_state)))"

text \<open>
  A state the handlers reach from the initial one in which two coins have one id. Two
  identifications whose results carry a property \<^verbatim>\<open>id\<close> are captured and saved; the
  spread of the result comes after the \<^verbatim>\<open>id\<close> of the handler and writes over it.
\<close>

definition sample_result_with_id :: jsobj where
  "sample_result_with_id = [(''id'', JStr ''dup''), (''name'', JStr ''Penny'')]"

definition duplicate_id_state :: AppState where
  "duplicate_id_state =
     handleSaveCoin (handleCapture ''uuid-2'' ''2024-01-02T00:00:00.000Z'' sample_images
         (Inr sample_result_with_id)
       (handleStartAddCoin
         (handleSaveCoin (handleCapture ''uuid-1'' ''2024-01-01T00:00:00.000Z'' sample_images
             (Inr sample_result_with_id)
           (handleStartAddCoin initial_state)))))"

section \<open>Aggregate: the highest-value coin\<close>

lemma foldl_pick_last_max:
  fixes c :: CoinData
  defines "pick \<equiv> (\<lambda>prev current. if value' prev > value' current then prev else current)"
  shows "\<exists>xs ys. c # cs = xs @ foldl pick c cs # ys \<and>
           (\<forall>d \<in> set xs. value' d \<le> value' (foldl pick c cs)) \<and>
           (\<forall>d \<in> set ys. value' d < value' (foldl pick c cs))"
proof (induction cs rule: rev_induct)
  case Nil
  have "c # [] = [] @ c # []" by simp
  then show ?case by fastforce
next
  case (snoc e cs)
  let ?r = "foldl pick c cs"
  from snoc obtain xs ys where dec: "c # cs = xs @ ?r # ys"
    and le: "\<forall>d \<in> set xs. value' d \<le> value' ?r"
    and lt: "\<forall>d \<in> set ys. value' d < value' ?r"
    by blast
  show ?case
  proof (cases "value' ?r > value' e")
    case True
    then have res: "foldl pick c (cs @ [e]) = ?r" by (simp add: pick_def)
    have "c # (cs @ [e]) = xs @ ?r # (ys @ [e])" using dec by simp
    moreover have "\<forall>d \<in> set (ys @ [e]). value' d < value' ?r" using lt True by simp
    ultimately show ?thesis unfolding res using le by blast
  next
    case False
    then have res: "foldl pick c (cs @ [e]) = e" by (simp add: pick_def)
    have "c # (cs @ [e]) = (xs @ ?r # ys) @ e # []" using dec by simp
    moreover have "\<forall>d \<in> set (xs @ ?r # ys). value' d \<le> value' e"
      using le lt False by fastforce
    ultimately show ?thesis unfolding res by (metis empty_iff list.set(1))
  qed
qed

text \<open>
  C1 (as the code has it). For every non-empty collection the highest-value coin
  exists and is a coin of maximal value; when several coins tie for the maximal value
  it is the last of them in iteration order: every coin before it is worth at most as
  much, every coin after it strictly less.
\<close>

theorem mostValuableCoin_last_maximal:
  "C \<noteq> [] \<Longrightarrow>
     \<exists>m xs ys. mostValuableCoin C = Some m \<and> C = xs @ m # ys \<and>
       (\<forall>d \<in> set xs. value' d \<le> value' m) \<and> (\<forall>d \<in> set ys. value' d < value' m)"
proof -
  assume "C \<noteq> []"
  then obtain c cs where C: "C = c # cs" by (cases C) auto
  show ?thesis
    using foldl_pick_last_max [of c cs]
    by (simp add: mostValuableCoin_def C)
qed

theorem mostValuableCoin_last_maximal_witness:
  "[sample_coin ''A'' 5 (Some 1990), sample_coin ''B'' 20 None] \<noteq> [] \<and>
   (\<exists>m xs ys.
      mostValuableCoin [sample_coin ''A'' 5 (Some 1990), sample_coin ''B'' 20 None] = Some m \<and>
      [sample_coin ''A'' 5 (Some 1990), sample_coin ''B'' 20 None] = xs @ m # ys \<and>
      (\<forall>d \<in> set xs. value' d \<le> value' m) \<and> (\<forall>d \<in> set ys. value' d < value' m))"
  using mostValuableCoin_last_maximal
    [of "[sample_coin ''A'' 5 (Some 1990), sample_coin ''B'' 20 None]"]
  by simp

text \<open>
  C1 as the specification states it fails on a tie: of two coins worth 20 the reduce
  keeps the second, where the specification's aggregate names the first.
\<close>

theorem mostValuableCoin_first_on_ties_counterexample:
  "mostValuableCoin [sample_coin ''B'' 20 None, sample_coin ''C'' 20 (Some 2001)]
     = Some (sample_coin ''C'' 20 (Some 2001)) \<and>
   spec_first_highest [sample_coin ''B'' 20 None, sample_coin ''C'' 20 (Some 2001)]
     = Some (sample_coin ''B'' 20 None) \<and>
   sample_coin ''B'' 20 None \<noteq> sample_coin ''C'' 20 (Some 2001)"
  by (simp add: mostValuableCoin_def spec_first_highest_def sample_coin_def)

section \<open>Sorting\<close>

text \<open>
  Where the comparator is the difference of a key, the stable insertion sort is the
  library's stable sort by that key.
\<close>

lemma array_insert_insort_key:
  fixes k :: "'a \<Rightarrow> real"
  assumes "\<And>a b. (cmp a b \<le> 0) = (k a \<le> k b)"
  shows "array_insert cmp x ys = insort_key k x ys"
  by (induction ys) (simp_all add: assms)

lemma array_sort_sort_key:
  fixes k :: "'a \<Rightarrow> real"
  assumes "\<And>a b. (cmp a b \<le> 0) = (k a \<le> k b)"
  shows "array_sort cmp xs = sort_key k xs"
  unfolding array_sort_def
  by (induction xs) (simp_all add: array_insert_insort_key [of cmp k, OF assms])

lemma sortedCoins_value_asc:
  "sortedCoins lc gt ByValue Asc xs = sort_key value' xs"
  unfolding sortedCoins_def
  by (rule array_sort_sort_key) (simp add: compareCoins_def)

lemma sortedCoins_value_desc:
  "sortedCoins lc gt ByValue Desc xs = sort_key (\<lambda>c. - value' c) xs"
  unfolding sortedCoins_def
  by (rule array_sort_sort_key) (simp add: compareCoins_def)

lemma sortedCoins_year_asc:
  "sortedCoins lc gt ByYear Asc xs = sort_key (\<lambda>c. year_or_0 (year c)) xs"
  unfolding sortedCoins_def
  by (rule array_sort_sort_key) (simp add: compareCoins_def)

lemma sorted_neg_rev:
  fixes f :: "'a \<Rightarrow> real"
  assumes "sorted (map f zs)"
  shows "sorted (map (\<lambda>x. - f x) (rev zs))"
  using assms by (simp add: sorted_map sorted_wrt_rev)

text \<open>
  Sorting by the negated key is sorting the reversed list by the key and reversing the
  result: both are sorted by the negated key, and both keep elements of equal key in
  the order of the input.
\<close>

lemma sort_key_neg_rev:
  fixes f :: "'a \<Rightarrow> real"
  shows "sort_key (\<lambda>x. - f x) xs = rev (sort_key f (rev xs))"
proof (rule properties_for_sort_key)
  show "mset (rev (sort_key f (rev xs))) = mset xs" by simp
next
  fix k
  have "filter (\<lambda>x. f x = f k) (sort_key f (rev xs)) = filter (\<lambda>x. f x = f k) (rev xs)"
    by (rule sort_key_stable)
  then have "rev (filter (\<lambda>x. f x = f k) (sort_key f (rev xs))) = filter (\<lambda>x. f x = f k) xs"
    by (simp add: rev_filter)
  then have "filter (\<lambda>x. f x = f k) (rev (sort_key f (rev xs))) = filter (\<lambda>x. f x = f k) xs"
    by (simp add: rev_filter)
  moreover have "(\<lambda>x. - f k = - f x) = (\<lambda>x. f x = f k)" by auto
  ultimately show "filter (\<lambda>x. - f k = - f x) (rev (sort_key f (rev xs)))
      = filter (\<lambda>x. - f k = - f x) xs"
    by simp
next
  show "sorted (map (\<lambda>x. - f x) (rev (sort_key f (rev xs))))"
    by (rule sorted_neg_rev) simp
qed

lemma sort_key_distinct_rev:
  fixes f :: "'a \<Rightarrow> real"
  assumes "distinct (map f xs)"
  shows "sort_key f (rev xs) = sort_key f xs"
proof (rule sort_key_inj_key_eq)
  show "mset (rev xs) = mset (sort_key f xs)" by simp
  show "inj_on f (set (rev xs))" using assms by (simp add: distinct_map)
  show "sorted (map f (sort_key f xs))" by simp
qed

lemma map_sort_key_eq_sort:
  fixes f :: "'a \<Rightarrow> real"
  shows "map f (sort_key f xs) = sort (map f xs)"
  by (rule sym, rule properties_for_sort) simp_all

lemma sort_rev_eq:
  fixes ks :: "real list"
  shows "sort (rev ks) = sort ks"
  by (rule properties_for_sort) simp_all

lemma sorted_neg_iff_rev:
  fixes f :: "'a \<Rightarrow> real"
  shows "sorted (map (\<lambda>x. - f x) xs) = sorted (rev (map f xs))"
proof -
  have "sorted (rev (map f xs)) = sorted (map f (rev xs))" by (simp add: rev_map)
  also have "\<dots> = sorted_wrt (\<lambda>x y. f y \<le> f x) xs" by (simp add: sorted_map sorted_wrt_rev)
  also have "\<dots> = sorted (map (\<lambda>x. - f x) xs)" by (simp add: sorted_map)
  finally show ?thesis by simp
qed

text \<open>
  C2 (as the code has it). The descending comparator is the negated ascending one. For
  every collection \<open>C\<close>, both sorts rearrange the coins of \<open>C\<close>, the ascending one
  into non-decreasing values and the descending one into non-increasing values, and
  both are stable: the coins of any one value \<open>k\<close> keep, in either result, the order
  they have in \<open>C\<close>. So reversing the ascending result puts the coins of equal value
  in the reverse of their order in \<open>C\<close>, and sorting descending is the reverse of
  sorting the reversed \<open>C\<close> ascending. Sorting \<open>C\<close> ascending and reversing gives the
  same sequence of values as sorting \<open>C\<close> descending; and when no two coins of \<open>C\<close>
  have the same value, it gives exactly the same element order.
\<close>

theorem value_desc_is_reversed_asc:
  "compareCoins lc gt sb Desc a b = - compareCoins lc gt sb Asc a b \<and>
   mset (sortedCoins lc gt ByValue Asc C) = mset C \<and>
   mset (sortedCoins lc gt ByValue Desc C) = mset C \<and>
   sorted (map value' (sortedCoins lc gt ByValue Asc C)) \<and>
   sorted (rev (map value' (sortedCoins lc gt ByValue Desc C))) \<and>
   filter (\<lambda>c. value' c = k) (sortedCoins lc gt ByValue Asc C)
     = filter (\<lambda>c. value' c = k) C \<and>
   filter (\<lambda>c. value' c = k) (sortedCoins lc gt ByValue Desc C)
     = filter (\<lambda>c. value' c = k) C \<and>
   filter (\<lambda>c. value' c = k) (rev (sortedCoins lc gt ByValue Asc C))
     = rev (filter (\<lambda>c. value' c = k) C) \<and>
   sortedCoins lc gt ByValue Desc C = rev (sortedCoins lc gt ByValue Asc (rev C)) \<and>
   map value' (rev (sortedCoins lc gt ByValue Asc C))
     = map value' (sortedCoins lc gt ByValue Desc C) \<and>
   (distinct (map value' C) \<longrightarrow>
      rev (sortedCoins lc gt ByValue Asc C) = sortedCoins lc gt ByValue Desc C)"
proof (intro conjI impI)
  show "compareCoins lc gt sb Desc a b = - compareCoins lc gt sb Asc a b"
    by (simp add: compareCoins_def)
  show "mset (sortedCoins lc gt ByValue Asc C) = mset C"
    by (simp add: sortedCoins_value_asc)
  show "mset (sortedCoins lc gt ByValue Desc C) = mset C"
    by (simp add: sortedCoins_value_desc)
  show "sorted (map value' (sortedCoins lc gt ByValue Asc C))"
    by (simp add: sortedCoins_value_asc)
  have "sorted (map (\<lambda>c. - value' c) (sort_key (\<lambda>c. - value' c) C))"
    by (rule sorted_sort_key)
  then show "sorted (rev (map value' (sortedCoins lc gt ByValue Desc C)))"
    by (simp only: sortedCoins_value_desc sorted_neg_iff_rev)
  show asc: "filter (\<lambda>c. value' c = k) (sortedCoins lc gt ByValue Asc C)
      = filter (\<lambda>c. value' c = k) C"
    by (simp add: sortedCoins_value_asc sort_key_stable)
  have "filter (\<lambda>c. - value' c = - k) (sort_key (\<lambda>c. - value' c) C)
      = filter (\<lambda>c. - value' c = - k) C"
    by (rule sort_key_stable)
  then show "filter (\<lambda>c. value' c = k) (sortedCoins lc gt ByValue Desc C)
      = filter (\<lambda>c. value' c = k) C"
    by (simp add: sortedCoins_value_desc)
  show "filter (\<lambda>c. value' c = k) (rev (sortedCoins lc gt ByValue Asc C))
      = rev (filter (\<lambda>c. value' c = k) C)"
    using asc by (simp add: rev_filter [symmetric])
  show "sortedCoins lc gt ByValue Desc C = rev (sortedCoins lc gt ByValue Asc (rev C))"
    by (simp add: sortedCoins_value_asc sortedCoins_value_desc sort_key_neg_rev)
  show "distinct (map value' C) \<Longrightarrow>
      rev (sortedCoins lc gt ByValue Asc C) = sortedCoins lc gt ByValue Desc C"
    by (simp add: sortedCoins_value_asc sortedCoins_value_desc sort_key_neg_rev
        sort_key_distinct_rev)
  have "map value' (sort_key value' (rev C)) = map value' (sort_key value' C)"
    by (simp add: map_sort_key_eq_sort [of value' "rev C"] map_sort_key_eq_sort [of value' C]
        rev_map [symmetric] sort_rev_eq)
  then show "map value' (rev (sortedCoins lc gt ByValue Asc C))
      = map value' (sortedCoins lc gt ByValue Desc C)"
    by (simp add: sortedCoins_value_asc sortedCoins_value_desc sort_key_neg_rev
        rev_map [symmetric])
qed

theorem value_desc_is_reversed_asc_witness:
  "distinct (map value' [sample_coin ''A'' 5 (Some 1990), sample_coin ''B'' 20 None]) \<and>
   rev (sortedCoins no_localeCompare no_getTime ByValue Asc
          [sample_coin ''A'' 5 (Some 1990), sample_coin ''B'' 20 None])
     = sortedCoins no_localeCompare no_getTime ByValue Desc
          [sample_coin ''A'' 5 (Some 1990), sample_coin ''B'' 20 None] \<and>
   filter (\<lambda>c. value' c = 20)
       (sortedCoins no_localeCompare no_getTime ByValue Desc sample_collection)
     = [sample_coin ''B'' 20 None, sample_coin ''C'' 20 (Some 2001)]"
proof -
  have f: "filter (\<lambda>c. value' c = 20) sample_collection
      = [sample_coin ''B'' 20 None, sample_coin ''C'' 20 (Some 2001)]"
    by (simp add: sample_collection_def sample_coin_def)
  have d: "distinct (map value' [sample_coin ''A'' 5 (Some 1990), sample_coin ''B'' 20 None])"
    by (simp add: sample_coin_def)
  from value_desc_is_reversed_asc [where lc = no_localeCompare and gt = no_getTime
      and C = "[sample_coin ''A'' 5 (Some 1990), sample_coin ''B'' 20 None]"] d
  have r: "rev (sortedCoins no_localeCompare no_getTime ByValue Asc
          [sample_coin ''A'' 5 (Some 1990), sample_coin ''B'' 20 None])
     = sortedCoins no_localeCompare no_getTime ByValue Desc
          [sample_coin ''A'' 5 (Some 1990), sample_coin ''B'' 20 None]"
    by blast
  from value_desc_is_reversed_asc [where lc = no_localeCompare and gt = no_getTime
      and C = sample_collection and k = 20]
  have "filter (\<lambda>c. value' c = 20)
       (sortedCoins no_localeCompare no_getTime ByValue Desc sample_collection)
     = filter (\<lambda>c. value' c = 20) sample_collection"
    by blast
  with f d r show ?thesis by simp
qed

text \<open>
  C2 as the specification states it fails on a tie. The sort is stable, so two coins
  worth 20 keep their order B, C in both directions; reversing the ascending result
  gives C, B.
\<close>

theorem value_asc_reversed_on_ties_counterexample:
  "rev (sortedCoins no_localeCompare no_getTime ByValue Asc
          [sample_coin ''B'' 20 None, sample_coin ''C'' 20 (Some 2001)])
     = [sample_coin ''C'' 20 (Some 2001), sample_coin ''B'' 20 None] \<and>
   sortedCoins no_localeCompare no_getTime ByValue Desc
          [sample_coin ''B'' 20 None, sample_coin ''C'' 20 (Some 2001)]
     = [sample_coin ''B'' 20 None, sample_coin ''C'' 20 (Some 2001)] \<and>
   sample_coin ''B'' 20 None \<noteq> sample_coin ''C'' 20 (Some 2001)"
  by (simp add: sortedCoins_def array_sort_def compareCoins_def sample_coin_def)

text \<open>
  C7 (as the code has it). For every collection \<open>C\<close>, sorting by year ascending
  rearranges the coins of \<open>C\<close> into non-decreasing order of the year with an unknown
  year counted as 0, and places every coin whose year is unknown before every coin
  with a known, positive year. The sort is stable: the coins of any one year keep the
  order they have in \<open>C\<close>; a coin of known year 0 ties with the coins of unknown
  year, and these coins together keep the order they have in \<open>C\<close>.
\<close>

theorem year_asc_unknown_before_positive:
  "(\<forall>i j y. i < length (sortedCoins lc gt ByYear Asc C) \<and>
        j < length (sortedCoins lc gt ByYear Asc C) \<and>
        year (sortedCoins lc gt ByYear Asc C ! i) = None \<and>
        year (sortedCoins lc gt ByYear Asc C ! j) = Some y \<and> 0 < y \<longrightarrow> i < j) \<and>
   mset (sortedCoins lc gt ByYear Asc C) = mset C \<and>
   sorted (map (\<lambda>c. year_or_0 (year c)) (sortedCoins lc gt ByYear Asc C)) \<and>
   filter (\<lambda>c. year_or_0 (year c) = k) (sortedCoins lc gt ByYear Asc C)
     = filter (\<lambda>c. year_or_0 (year c) = k) C \<and>
   filter (\<lambda>c. year c = None \<or> year c = Some 0) (sortedCoins lc gt ByYear Asc C)
     = filter (\<lambda>c. year c = None \<or> year c = Some 0) C"
proof (intro conjI allI impI)
  let ?k = "\<lambda>c. year_or_0 (year c)"
  let ?r = "sort_key ?k C"
  have r: "sortedCoins lc gt ByYear Asc C = ?r" by (rule sortedCoins_year_asc)
  show "mset (sortedCoins lc gt ByYear Asc C) = mset C" by (simp add: r)
  show "sorted (map ?k (sortedCoins lc gt ByYear Asc C))" by (simp add: r)
  show "filter (\<lambda>c. ?k c = k) (sortedCoins lc gt ByYear Asc C) = filter (\<lambda>c. ?k c = k) C"
    by (simp add: r sort_key_stable)
  have z: "(year c = None \<or> year c = Some 0) = (?k c = 0)" for c
    by (cases "year c") (simp_all add: year_or_0_def)
  have zf: "filter (\<lambda>c. year c = None \<or> year c = Some 0) xs = filter (\<lambda>c. ?k c = 0) xs"
    for xs :: "CoinData list"
    by (rule filter_cong) (simp_all add: z)
  show "filter (\<lambda>c. year c = None \<or> year c = Some 0) (sortedCoins lc gt ByYear Asc C)
      = filter (\<lambda>c. year c = None \<or> year c = Some 0) C"
    by (simp only: zf r sort_key_stable)
  fix i j y
  assume a: "i < length (sortedCoins lc gt ByYear Asc C) \<and>
        j < length (sortedCoins lc gt ByYear Asc C) \<and>
        year (sortedCoins lc gt ByYear Asc C ! i) = None \<and>
        year (sortedCoins lc gt ByYear Asc C ! j) = Some y \<and> 0 < y"
  show "i < j"
  proof (rule ccontr)
    assume "\<not> i < j"
    then have ji: "j \<le> i" by simp
    have srt: "sorted (map ?k ?r)" by simp
    have il: "i < length (map ?k ?r)" using a by (simp add: r)
    have "map ?k ?r ! j \<le> map ?k ?r ! i" by (rule sorted_nth_mono [OF srt ji il])
    then have "?k (?r ! j) \<le> ?k (?r ! i)" using a ji by (simp add: r)
    then show False using a by (simp add: r year_or_0_def)
  qed
qed

theorem year_asc_unknown_before_positive_witness:
  "0 < length (sortedCoins no_localeCompare no_getTime ByYear Asc sample_collection) \<and>
   2 < length (sortedCoins no_localeCompare no_getTime ByYear Asc sample_collection) \<and>
   year (sortedCoins no_localeCompare no_getTime ByYear Asc sample_collection ! 0) = None \<and>
   year (sortedCoins no_localeCompare no_getTime ByYear Asc sample_collection ! 2) = Some 2001 \<and>
   (0::real) < 2001 \<and> (0::nat) < 2"
  using year_asc_unknown_before_positive
    [where lc = no_localeCompare and gt = no_getTime and C = sample_collection]
  by (simp add: sortedCoins_def array_sort_def compareCoins_def sample_coin_def
      sample_collection_def year_or_0_def)

text \<open>
  C7 as the specification states it fails at the known, non-negative year 0: an unknown
  year counts as 0 too, the two coins tie, and the stable sort leaves the coin of year
  0 in front of the coin of unknown year.
\<close>

theorem year_zero_before_unknown_counterexample:
  "sortedCoins no_localeCompare no_getTime ByYear Asc
     [sample_coin ''Z'' 5 (Some 0), sample_coin ''U'' 20 None]
   = [sample_coin ''Z'' 5 (Some 0), sample_coin ''U'' 20 None] \<and>
   year (sample_coin ''Z'' 5 (Some 0)) = Some 0 \<and> year (sample_coin ''U'' 20 None) = None"
  by (simp add: sortedCoins_def array_sort_def compareCoins_def sample_coin_def year_or_0_def)

section \<open>Filter\<close>

lemma string_includes_iff: "string_includes s t \<longleftrightarrow> (\<exists>ps ss. s = ps @ t @ ss)"
proof (induction s)
  case Nil
  then show ?case by auto
next
  case (Cons c s)
  show ?case
  proof
    assume "string_includes (c # s) t"
    then consider "prefix t (c # s)" | "string_includes s t" by auto
    then show "\<exists>ps ss. c # s = ps @ t @ ss"
    proof cases
      case 1
      then obtain ss where "c # s = t @ ss" by (auto simp: prefix_def)
      then have "c # s = [] @ t @ ss" by simp
      then show ?thesis by blast
    next
      case 2
      then obtain ps ss where "s = ps @ t @ ss" using Cons.IH by blast
      then have "c # s = (c # ps) @ t @ ss" by simp
      then show ?thesis by blast
    qed
  next
    assume "\<exists>ps ss. c # s = ps @ t @ ss"
    then obtain ps ss where eq: "c # s = ps @ t @ ss" by blast
    show "string_includes (c # s) t"
    proof (cases ps)
      case Nil
      then have "prefix t (c # s)" using eq by (simp add: prefix_def)
      then show ?thesis by simp
    next
      case (Cons p ps')
      then have "s = ps' @ t @ ss" using eq by simp
      then have "string_includes s t" using Cons.IH by blast
      then show ?thesis by simp
    qed
  qed
qed

lemma string_includes_empty: "string_includes s []"
  by (induction s) simp_all

text \<open>
  C8. For every collection \<open>C\<close> and every query \<open>q\<close>, with \<open>lower\<close> the library's
  \<^verbatim>\<open>toLowerCase\<close>: the filtered list is a sublist of \<open>C\<close> (so a subset); a coin of
  \<open>C\<close> is in it exactly when its lower-cased name or its lower-cased country
  contains the lower-cased \<open>q\<close> as a contiguous run of characters, which is how the
  code compares without regard to case; and, the lower-cased empty string being
  empty, the empty query returns \<open>C\<close> itself.
\<close>

theorem filteredCoins_sound:
  "subseq (filteredCoins lower C q) C \<and>
   set (filteredCoins lower C q) \<subseteq> set C \<and>
   (\<forall>c \<in> set C.
      c \<in> set (filteredCoins lower C q) \<longleftrightarrow>
        (\<exists>ps ss. lower (name c) = ps @ lower q @ ss) \<or>
        (\<exists>ps ss. lower (country c) = ps @ lower q @ ss)) \<and>
   (lower [] = [] \<longrightarrow> filteredCoins lower C [] = C)"
proof (intro conjI ballI impI)
  show "subseq (filteredCoins lower C q) C" by (simp add: filteredCoins_def)
  show "set (filteredCoins lower C q) \<subseteq> set C" by (auto simp: filteredCoins_def)
  show "lower [] = [] \<Longrightarrow> filteredCoins lower C [] = C"
    by (simp add: filteredCoins_def string_includes_empty)
next
  fix c assume "c \<in> set C"
  then show "c \<in> set (filteredCoins lower C q) \<longleftrightarrow>
        (\<exists>ps ss. lower (name c) = ps @ lower q @ ss) \<or>
        (\<exists>ps ss. lower (country c) = ps @ lower q @ ss)"
    by (simp add: filteredCoins_def string_includes_iff)
qed

theorem filteredCoins_sound_witness:
  "sample_toLowerCase [] = [] \<and>
   filteredCoins sample_toLowerCase sample_collection [] = sample_collection \<and>
   sample_coin ''B'' 20 None \<in> set sample_collection \<and>
   filteredCoins sample_toLowerCase sample_collection ''COIN b'' = [sample_coin ''B'' 20 None] \<and>
   ((\<exists>ps ss. sample_toLowerCase (name (sample_coin ''B'' 20 None))
        = ps @ sample_toLowerCase ''COIN b'' @ ss) \<or>
    (\<exists>ps ss. sample_toLowerCase (country (sample_coin ''B'' 20 None))
        = ps @ sample_toLowerCase ''COIN b'' @ ss))"
proof -
  have ev: "filteredCoins sample_toLowerCase sample_collection ''COIN b''
      = [sample_coin ''B'' 20 None]"
    by code_simp
  have mem: "sample_coin ''B'' 20 None \<in> set sample_collection"
    by (simp add: sample_collection_def)
  have e: "sample_toLowerCase [] = []" by (simp add: sample_toLowerCase_def)
  note inst = filteredCoins_sound [of sample_toLowerCase sample_collection]
  from inst [of "''COIN b''"]
  have "\<forall>c \<in> set sample_collection.
      c \<in> set (filteredCoins sample_toLowerCase sample_collection ''COIN b'') \<longleftrightarrow>
        (\<exists>ps ss. sample_toLowerCase (name c) = ps @ sample_toLowerCase ''COIN b'' @ ss) \<or>
        (\<exists>ps ss. sample_toLowerCase (country c) = ps @ sample_toLowerCase ''COIN b'' @ ss)"
    by blast
  with mem have "sample_coin ''B'' 20 None
        \<in> set (filteredCoins sample_toLowerCase sample_collection ''COIN b'') \<longleftrightarrow>
        (\<exists>ps ss. sample_toLowerCase (name (sample_coin ''B'' 20 None))
           = ps @ sample_toLowerCase ''COIN b'' @ ss) \<or>
        (\<exists>ps ss. sample_toLowerCase (country (sample_coin ''B'' 20 None))
           = ps @ sample_toLowerCase ''COIN b'' @ ss)"
    by blast
  moreover from inst [of "[]"] e
  have "filteredCoins sample_toLowerCase sample_collection [] = sample_collection"
    by blast
  ultimately show ?thesis using ev mem e by simp
qed

section \<open>Properties of objects\<close>

lemma get_prop_Nil: "get_prop [] k = JUndefined"
  by (simp add: get_prop_def)

lemma get_prop_Cons: "get_prop ((k, v) # obj) k' = (if k' = k then v else get_prop obj k')"
  by (simp add: get_prop_def)

lemmas get_prop_eval = get_prop_Nil get_prop_Cons


section \<open>Load-time migration of the image fields\<close>

text \<open>
  Loading puts the migrated records in the store; with nothing stored, or when parsing
  fails, the state stays as it is.
\<close>

lemma loadCoins_cases:
  "coins (loadCoins (Some (Inr parsed)) s) = map migrate_record parsed \<and>
   loadCoins (Some (Inl e)) s = s \<and> loadCoins None s = s"
  by (simp add: loadCoins_def migrated_def)




section \<open>The value field\<close>










section \<open>A failed identification\<close>

text \<open>
  The pending entry that \<^verbatim>\<open>handleCapture\<close> builds from a result: the five fields of
  the handler, then the properties of the result under their own names.
\<close>

lemma handleCapture_pending_entry:
  "pendingCoin (handleCapture u t imgs
       (Inr [(''name'', JStr ''Penny''), (''estimatedValue'', JNum (Fin 5))]) s)
   = Some [(''id'', JStr u), (''frontImageUrl'', JStr (front imgs)),
           (''backImageUrl'', JStr (back' imgs)), (''dateAdded'', JStr t),
           (''currency'', JStr ''USD''), (''name'', JStr ''Penny''),
           (''estimatedValue'', JNum (Fin 5))]"
  by (simp add: handleCapture_def handleCapture_settled_def handleCapture_called_def
      spread_def set_prop_def)

text \<open>
  C4 (as the code has it). For every state, if the identification call rejects then
  the coin list is unchanged (no record is appended, whether the handler is taken as a
  whole or only its part after the call), the error message is set and the analysing
  flag is off. The pending entry is left as it was; it is null when the capture
  follows the start of the add flow directly.
\<close>

theorem handleCapture_rejected:
  "coins (handleCapture u t imgs (Inl e) s) = coins s \<and>
   coins (handleCapture_settled u t imgs (Inl e) s) = coins s \<and>
   pendingCoin (handleCapture u t imgs (Inl e) s) = pendingCoin s \<and>
   pendingCoin (handleCapture u t imgs (Inl e) (handleStartAddCoin s)) = None \<and>
   analysisError (handleCapture u t imgs (Inl e) s)
     = Some ''Failed to identify coin. Please try again with a clearer photo.'' \<and>
   isAnalyzing (handleCapture u t imgs (Inl e) s) = False"
  by (simp add: handleCapture_def handleCapture_settled_def handleCapture_called_def
      handleStartAddCoin_def)

text \<open>
  C4 as the specification states it fails in the state \<open>stale_pending_state\<close>: the
  capture screen is shown (the view is the add view and no images are held), the
  second identification rejects, and the pending entry of the first one is still
  there beside the error.
\<close>

theorem pending_not_cleared_counterexample:
  "view stale_pending_state = Add \<and> capturedImages stale_pending_state = None \<and>
   pendingCoin (handleCapture ''id-2'' ''2024-01-02T00:00:00.000Z'' sample_images
       (Inl IdentificationFailed) stale_pending_state) \<noteq> None \<and>
   analysisError (handleCapture ''id-2'' ''2024-01-02T00:00:00.000Z'' sample_images
       (Inl IdentificationFailed) stale_pending_state) \<noteq> None"
  by (simp add: stale_pending_state_def handleCapture_def handleCapture_settled_def
      handleCapture_called_def handleStartAddCoin_def initial_state_def)

section \<open>Delete\<close>

lemma filter_removes_unique:
  assumes "distinct (map f zs)" and "zs = xs @ c # ys"
  shows "filter (\<lambda>x. f x \<noteq> f c) zs = xs @ ys"
proof -
  have "f c \<notin> f ` set xs" "f c \<notin> f ` set ys" using assms by auto
  then have "\<forall>x \<in> set xs. f x \<noteq> f c" "\<forall>x \<in> set ys. f x \<noteq> f c"
    by (metis imageI)+
  then show ?thesis using assms(2) by simp
qed

text \<open>
  A delete keeps unique ids unique. A save keeps them unique when the pending entry
  carries an id that no stored coin has; the handler does not check this.
\<close>

lemma unique_ids_preserved:
  assumes "distinct (map (\<lambda>c. get_prop c ''id'') (coins s))"
  shows "distinct (map (\<lambda>c. get_prop c ''id'') (coins (handleDeleteCoin b i s)))"
    and "pendingCoin s = Some p \<Longrightarrow> get_prop p ''id'' \<notin> (\<lambda>c. get_prop c ''id'') ` set (coins s)
         \<Longrightarrow> distinct (map (\<lambda>c. get_prop c ''id'') (coins (handleSaveCoin s)))"
  using assms by (auto simp: handleDeleteCoin_def handleSaveCoin_def distinct_map_filter)

text \<open>
  C5 (as the code has it). A confirmed delete by an id removes every record with that
  id and leaves all other records unchanged and in their order: the number of records
  removed is the number of records with the id, which is one when exactly one record
  has it (then the records before and after it stay, in order), as it is in a
  collection whose ids are unique. When no record has the id the collection is
  unchanged. When the selected coin has the id, the selection is cleared. A delete
  the user does not confirm changes nothing.
\<close>

theorem handleDeleteCoin_removes_matching:
  "filter (\<lambda>c. get_prop c ''id'' = JStr i) (coins (handleDeleteCoin True i s)) = [] \<and>
   filter (\<lambda>c. get_prop c ''id'' \<noteq> JStr i) (coins (handleDeleteCoin True i s))
     = filter (\<lambda>c. get_prop c ''id'' \<noteq> JStr i) (coins s) \<and>
   length (coins (handleDeleteCoin True i s))
     + length (filter (\<lambda>c. get_prop c ''id'' = JStr i) (coins s)) = length (coins s) \<and>
   subseq (coins (handleDeleteCoin True i s)) (coins s) \<and>
   (\<forall>c \<in> set (coins s). get_prop c ''id'' \<noteq> JStr i \<longrightarrow>
      c \<in> set (coins (handleDeleteCoin True i s))) \<and>
   (\<forall>xs c ys. coins s = xs @ c # ys \<and> get_prop c ''id'' = JStr i \<and>
        (\<forall>d \<in> set xs \<union> set ys. get_prop d ''id'' \<noteq> JStr i) \<longrightarrow>
      coins (handleDeleteCoin True i s) = xs @ ys) \<and>
   (distinct (map (\<lambda>c. get_prop c ''id'') (coins s)) \<longrightarrow>
      (\<forall>c \<in> set (coins s). get_prop c ''id'' = JStr i \<longrightarrow>
         (\<exists>xs ys. coins s = xs @ c # ys \<and> coins (handleDeleteCoin True i s) = xs @ ys))) \<and>
   ((\<forall>c \<in> set (coins s). get_prop c ''id'' \<noteq> JStr i) \<longrightarrow>
      coins (handleDeleteCoin True i s) = coins s) \<and>
   ((\<exists>c. selectedCoin s = Some c \<and> get_prop c ''id'' = JStr i) \<longrightarrow>
      selectedCoin (handleDeleteCoin True i s) = None) \<and>
   handleDeleteCoin False i s = s"
proof (intro conjI ballI impI allI)
  have cs: "coins (handleDeleteCoin True i s)
      = filter (\<lambda>c. get_prop c ''id'' \<noteq> JStr i) (coins s)"
    by (simp add: handleDeleteCoin_def)
  show "filter (\<lambda>c. get_prop c ''id'' = JStr i) (coins (handleDeleteCoin True i s)) = []"
    by (simp add: cs)
  show "filter (\<lambda>c. get_prop c ''id'' \<noteq> JStr i) (coins (handleDeleteCoin True i s))
      = filter (\<lambda>c. get_prop c ''id'' \<noteq> JStr i) (coins s)"
    by (simp add: cs)
  show "length (coins (handleDeleteCoin True i s))
      + length (filter (\<lambda>c. get_prop c ''id'' = JStr i) (coins s)) = length (coins s)"
    using sum_length_filter_compl [of "\<lambda>c. get_prop c ''id'' = JStr i" "coins s"]
    by (simp add: cs)
  show "subseq (coins (handleDeleteCoin True i s)) (coins s)"
    by (simp add: cs)
  show "handleDeleteCoin False i s = s" by (simp add: handleDeleteCoin_def)
next
  fix c assume "c \<in> set (coins s)" and "get_prop c ''id'' \<noteq> JStr i"
  then show "c \<in> set (coins (handleDeleteCoin True i s))"
    by (simp add: handleDeleteCoin_def)
next
  fix xs c ys
  assume "coins s = xs @ c # ys \<and> get_prop c ''id'' = JStr i \<and>
        (\<forall>d \<in> set xs \<union> set ys. get_prop d ''id'' \<noteq> JStr i)"
  then show "coins (handleDeleteCoin True i s) = xs @ ys"
    by (simp add: handleDeleteCoin_def)
next
  fix c
  assume uniq: "distinct (map (\<lambda>c. get_prop c ''id'') (coins s))"
    and c: "c \<in> set (coins s)" and idc: "get_prop c ''id'' = JStr i"
  from c obtain xs ys where dec: "coins s = xs @ c # ys" by (auto simp: in_set_conv_decomp)
  have "filter (\<lambda>x. get_prop x ''id'' \<noteq> get_prop c ''id'') (coins s) = xs @ ys"
    using uniq dec by (rule filter_removes_unique)
  then have "coins (handleDeleteCoin True i s) = xs @ ys"
    by (simp add: handleDeleteCoin_def idc)
  with dec show "\<exists>xs ys. coins s = xs @ c # ys \<and> coins (handleDeleteCoin True i s) = xs @ ys"
    by blast
next
  assume "\<forall>c \<in> set (coins s). get_prop c ''id'' \<noteq> JStr i"
  then show "coins (handleDeleteCoin True i s) = coins s"
    by (simp add: handleDeleteCoin_def)
next
  assume "\<exists>c. selectedCoin s = Some c \<and> get_prop c ''id'' = JStr i"
  then show "selectedCoin (handleDeleteCoin True i s) = None"
    by (auto simp: handleDeleteCoin_def)
qed

theorem handleDeleteCoin_removes_matching_witness:
  "distinct (map (\<lambda>c. get_prop c ''id'') (coins sample_store)) \<and>
   coins sample_store = [] @ [(''id'', JStr ''id-1''), (''name'', JStr ''Escudo'')]
     # [[(''id'', JStr ''id-2''), (''name'', JStr ''Centavo'')]] \<and>
   coins (handleDeleteCoin True ''id-1'' sample_store)
     = [[(''id'', JStr ''id-2''), (''name'', JStr ''Centavo'')]] \<and>
   selectedCoin (handleDeleteCoin True ''id-1'' sample_store) = None \<and>
   coins (handleDeleteCoin True ''id-9'' sample_store) = coins sample_store"
proof -
  have d: "distinct (map (\<lambda>c. get_prop c ''id'') (coins sample_store))"
    by (simp add: sample_store_def get_prop_eval)
  show ?thesis
    using d handleDeleteCoin_removes_matching [of "''id-1''" sample_store]
    by (simp add: sample_store_def handleDeleteCoin_def get_prop_eval initial_state_def)
qed

text \<open>
  C5 as the specification states it fails when two records have the id: in
  \<open>duplicate_id_state\<close> the collection holds two coins of id \<^verbatim>\<open>dup\<close>, and one
  delete by that id removes both.
\<close>

theorem delete_removes_two_counterexample:
  "map (\<lambda>c. get_prop c ''id'') (coins duplicate_id_state) = [JStr ''dup'', JStr ''dup''] \<and>
   length (coins duplicate_id_state) = 2 \<and>
   coins (handleDeleteCoin True ''dup'' duplicate_id_state) = []"
  by (simp add: duplicate_id_state_def sample_result_with_id_def handleSaveCoin_def
      handleCapture_def handleCapture_settled_def handleCapture_called_def
      handleStartAddCoin_def handleDeleteCoin_def initial_state_def spread_def set_prop_def
      get_prop_eval)

section \<open>Save\<close>

text \<open>
  C6. A pending entry whose name is a non-empty string is committed, whatever its
  other fields hold: it becomes the head of the coin list, in front of the coins
  already there. A pending entry whose name is the empty string or is missing is not
  committed, and neither is an absent pending entry: the state is unchanged.
\<close>

theorem handleSaveCoin_commits_iff_name:
  "(\<forall>p n. pendingCoin s = Some p \<and> get_prop p ''name'' = JStr n \<and> n \<noteq> [] \<longrightarrow>
      coins (handleSaveCoin s) = p # coins s) \<and>
   (\<forall>p. pendingCoin s = Some p \<and>
        (get_prop p ''name'' = JStr [] \<or> get_prop p ''name'' = JUndefined) \<longrightarrow>
      handleSaveCoin s = s) \<and>
   (pendingCoin s = None \<longrightarrow> handleSaveCoin s = s)"
  by (auto simp: handleSaveCoin_def)

theorem handleSaveCoin_commits_iff_name_witness:
  "pendingCoin (sample_store\<lparr>pendingCoin := Some sample_pending\<rparr>) = Some sample_pending \<and>
   get_prop sample_pending ''name'' = JStr ''Penny'' \<and> ''Penny'' \<noteq> [] \<and>
   coins (handleSaveCoin (sample_store\<lparr>pendingCoin := Some sample_pending\<rparr>))
     = sample_pending # coins sample_store \<and>
   get_prop [(''id'', JStr ''id-4'')] ''name'' = JUndefined \<and>
   handleSaveCoin (sample_store\<lparr>pendingCoin := Some [(''id'', JStr ''id-4'')]\<rparr>)
     = sample_store\<lparr>pendingCoin := Some [(''id'', JStr ''id-4'')]\<rparr> \<and>
   pendingCoin sample_store = None \<and> handleSaveCoin sample_store = sample_store"
  using handleSaveCoin_commits_iff_name [of "sample_store\<lparr>pendingCoin := Some sample_pending\<rparr>"]
    handleSaveCoin_commits_iff_name
      [of "sample_store\<lparr>pendingCoin := Some [(''id'', JStr ''id-4'')]\<rparr>"]
    handleSaveCoin_commits_iff_name [of sample_store]
  by (simp add: sample_pending_def get_prop_eval sample_store_def initial_state_def)

text \<open>
  C10. After a save that commits, the pending entry and the captured images are null,
  and a second save changes nothing: the coin list holds the entry once. In every
  state, saving twice is the same as saving once.
\<close>

theorem handleSaveCoin_at_most_once:
  "handleSaveCoin (handleSaveCoin s) = handleSaveCoin s \<and>
   (\<forall>p. pendingCoin s = Some p \<and> truthy (get_prop p ''name'') \<longrightarrow>
      pendingCoin (handleSaveCoin s) = None \<and> capturedImages (handleSaveCoin s) = None \<and>
      coins (handleSaveCoin s) = p # coins s \<and>
      coins (handleSaveCoin (handleSaveCoin s)) = p # coins s)"
  by (auto simp: handleSaveCoin_def split: option.splits)

theorem handleSaveCoin_at_most_once_witness:
  "pendingCoin (sample_store\<lparr>pendingCoin := Some sample_pending\<rparr>) = Some sample_pending \<and>
   truthy (get_prop sample_pending ''name'') \<and>
   coins (handleSaveCoin (handleSaveCoin (sample_store\<lparr>pendingCoin := Some sample_pending\<rparr>)))
     = sample_pending # coins sample_store"
  using handleSaveCoin_at_most_once [of "sample_store\<lparr>pendingCoin := Some sample_pending\<rparr>"]
  by (simp add: sample_pending_def get_prop_eval sample_store_def initial_state_def)

end
